theory Spec2Isabelle
  imports Complex_Main "HOL-Library.Word"
begin

unbundle bit_operations_syntax

section \<open>Machine integers and failures\<close>

text \<open>
  \<open>std::uint32_t\<close> and the 64-bit integers of \<open>frequency.hpp\<close>. A word carries no
  sign: \<open>unat\<close>/\<open>uint\<close> read it as unsigned, \<open>sint\<close> as two's complement, so the
  conversion \<open>std::int64_t\<close> to \<open>std::uint64_t\<close> is the identity on the word.
\<close>

type_synonym u32 = "32 word"
type_synonym u64 = "64 word"
type_synonym i64 = "64 word"

text \<open>
  The failures of \<open>boost::leaf::result\<close> that the frequency engine raises:
  the overflow of the checked multiplication and \<open>std::errc::value_too_large\<close>.
\<close>

datatype error = Overflow | ValueTooLarge

section \<open>Integer primitives (math.hpp)\<close>

text \<open>
  Modelled from the spec: \<open>math.hpp\<close> (\<open>rounding_division\<close>, \<open>distance\<close>,
  \<open>multiply\<close>, \<open>absolute_value\<close>) is included by \<open>frequency.hpp\<close> but is not among
  the sources. The spec: rounding division is "integer division rounded to nearest (not
  truncated)", ties away from zero, with \<open>rounding_division(5,2) = 3\<close>,
  \<open>rounding_division(4,2) = 2\<close>, \<open>rounding_division(-5,2) = -3\<close>; a zero denominator
  is outside the caller contract (the model yields 0 there).
\<close>

definition rounding_division_int :: "int \<Rightarrow> int \<Rightarrow> int" where
  "rounding_division_int n d =
     (if d = 0 then 0 else sgn n * sgn d * ((2 * \<bar>n\<bar> + \<bar>d\<bar>) div (2 * \<bar>d\<bar>)))"

definition rounding_division_u32 :: "u32 \<Rightarrow> u32 \<Rightarrow> u32" where
  "rounding_division_u32 n d = word_of_int (rounding_division_int (uint n) (uint d))"

definition rounding_division_i64 :: "i64 \<Rightarrow> i64 \<Rightarrow> i64" where
  "rounding_division_i64 n d = word_of_int (rounding_division_int (sint n) (sint d))"

text \<open>
  Modelled from the spec: "duration is first made non-negative (absolute value)". On the
  64-bit word the negation of the least value wraps to itself.
\<close>

definition absolute_value :: "i64 \<Rightarrow> i64" where
  "absolute_value x = (if x <s 0 then - x else x)"

text \<open>
  Modelled from the spec: \<open>distance(a, b)\<close> is the "unsigned absolute difference between
  two integers of the same width".
\<close>

definition distance :: "u32 \<Rightarrow> u32 \<Rightarrow> u32" where
  "distance a b = (if a < b then b - a else a - b)"

text \<open>
  Modelled from the spec: checked \<open>multiply(a, b)\<close> "multiplies two unsigned integers and
  fails with an Overflow condition instead of wrapping when the mathematical product
  exceeds the representable range of the result type".
\<close>

definition multiply :: "u32 \<Rightarrow> u32 \<Rightarrow> error + u32" where
  "multiply a b = (if unat a * unat b < 2 ^ 32 then Inr (a * b) else Inl Overflow)"

section \<open>Percent (percent.hpp)\<close>

text \<open>
  Modelled from the spec: \<open>percent.hpp\<close> is not among the sources. The spec gives the
  contract: "a saturating fraction in [0,1]", "constructible
  \<open>from_ratio(numerator, denominator)\<close>" and "multiplicable with an unsigned integer to
  produce a scaled unsigned integer (\<open>count * percent\<close>, flooring)". The model keeps the
  fraction as an exact rational. The spec does not say what a zero denominator gives;
  the model takes the fraction 0 there.
\<close>

datatype percent = Percent (ratio_of: rat)

definition in_unit_interval :: "percent \<Rightarrow> bool" where
  "in_unit_interval p = (0 \<le> ratio_of p \<and> ratio_of p \<le> 1)"

definition from_ratio :: "u32 \<Rightarrow> u32 \<Rightarrow> percent" where
  "from_ratio p_numerator p_denominator =
     (if p_denominator = 0 then Percent 0
      else Percent (min 1 (of_nat (unat p_numerator) / of_nat (unat p_denominator))))"

text \<open>\<open>p_cycles * p_percent\<close>, stored in a \<open>std::uint32_t\<close>.\<close>

definition scale :: "u32 \<Rightarrow> percent \<Rightarrow> u32" where
  "scale p_count p_percent = word_of_int \<lfloor>of_nat (unat p_count) * ratio_of p_percent\<rfloor>"

section \<open>Duty cycle and frequency (frequency.hpp)\<close>

record duty_cycle =
  high :: u32
  low :: u32

text \<open>
  \<open>duty_cycle::operator percent\<close>. \<open>duty_cycle_ratio\<close> is the body up to the last line:
  it yields the pair \<open>(scaled_high, total_cycles)\<close>; \<open>to_percent\<close> is the whole
  conversion, which hands that pair to \<open>percent::from_ratio\<close>.
\<close>

definition duty_cycle_ratio :: "duty_cycle \<Rightarrow> u32 \<times> u32" where
  "duty_cycle_ratio dc =
     (let overflow_total = (ucast (high dc) :: u64) + (ucast (low dc) :: u64) in
      if overflow_total > 0xFFFFFFFF
      then (drop_bit 1 (high dc), ucast (drop_bit 1 overflow_total))
      else (high dc, ucast overflow_total))"

definition to_percent :: "duty_cycle \<Rightarrow> percent" where
  "to_percent dc =
     (case duty_cycle_ratio dc of (scaled_high, total_cycles) \<Rightarrow>
        from_ratio scaled_high total_cycles)"

record frequency =
  value_hz :: u32

text \<open>\<open>operator/(frequency, std::uint32_t)\<close>: scale a frequency down.\<close>

definition freq_div :: "frequency \<Rightarrow> u32 \<Rightarrow> frequency" where
  "freq_div p_lhs p_rhs = \<lparr>value_hz = rounding_division_u32 (value_hz p_lhs) p_rhs\<rparr>"

text \<open>\<open>operator/(frequency, frequency)\<close>: the divider between two frequencies.\<close>

definition freq_ratio :: "frequency \<Rightarrow> frequency \<Rightarrow> u32" where
  "freq_ratio p_source p_target = rounding_division_u32 (value_hz p_source) (value_hz p_target)"

text \<open>
  \<open>operator*(frequency, Integer)\<close>: \<open>BOOST_LEAF_CHECK\<close> returns the failure of
  \<open>multiply\<close> as it is, and wraps its value in a frequency otherwise. The scalar is
  taken at the 32-bit width of \<open>value_hz\<close>, the destination width of the product.
\<close>

definition freq_mul :: "frequency \<Rightarrow> u32 \<Rightarrow> error + frequency" where
  "freq_mul p_source p_scalar =
     (case multiply (value_hz p_source) p_scalar of
        Inl e \<Rightarrow> Inl e
      | Inr v \<Rightarrow> Inr \<lparr>value_hz = v\<rparr>)"

text \<open>\<open>calculate_duty_cycle(std::uint32_t, percent)\<close>; the subtraction is unsigned.\<close>

definition calculate_duty_cycle :: "u32 \<Rightarrow> percent \<Rightarrow> duty_cycle" where
  "calculate_duty_cycle p_cycles p_percent =
     (let h = scale p_cycles p_percent;
          l = p_cycles - h
      in \<lparr>high = h, low = l\<rparr>)"

text \<open>
  \<open>hal::time_duration\<close> is declared in \<open>units.hpp\<close>, which is not among the sources: a
  signed 64-bit count of periods. The period's \<open>num\<close> and \<open>den\<close> are compile-time
  constants of that type; \<open>cycles_per\<close> takes them as its first two arguments.
  The product is computed in \<open>std::int64_t\<close>; the model wraps where it overflows.
\<close>

record time_duration =
  count :: i64

definition cycles_per :: "i64 \<Rightarrow> i64 \<Rightarrow> frequency \<Rightarrow> time_duration \<Rightarrow> i64" where
  "cycles_per numerator denominator p_source p_duration =
     (let duration = absolute_value (count p_duration);
          cnt = duration * ucast (value_hz p_source) * numerator;
          cycle_count = rounding_division_i64 cnt denominator
      in cycle_count)"

text \<open>\<open>calculate_duty_cycle(frequency, hal::time_duration, percent)\<close>.\<close>

definition calculate_duty_cycle_for ::
    "i64 \<Rightarrow> i64 \<Rightarrow> frequency \<Rightarrow> time_duration \<Rightarrow> percent \<Rightarrow> error + duty_cycle" where
  "calculate_duty_cycle_for numerator denominator p_source_clock p_duration p_percent =
     (let cycles = (cycles_per numerator denominator p_source_clock p_duration :: u64) in
      if cycles > 0xFFFFFFFF then Inl ValueTooLarge
      else Inr (calculate_duty_cycle (ucast cycles) p_percent))"

section \<open>Divider search\<close>

datatype divider_rule = Higher | Lower | Closest

text \<open>The two lambdas of \<open>closest\<close>; both capture the target.\<close>

definition cost :: "frequency \<Rightarrow> frequency \<Rightarrow> u32" where
  "cost p_target p_candidate = distance (value_hz p_candidate) (value_hz p_target)"

fun is_applicable :: "frequency \<Rightarrow> divider_rule \<Rightarrow> frequency \<Rightarrow> bool" where
  "is_applicable p_target Lower p_candidate = (value_hz p_candidate \<le> value_hz p_target)"
| "is_applicable p_target Higher p_candidate = (value_hz p_candidate \<ge> value_hz p_target)"
| "is_applicable p_target Closest p_candidate = True"

text \<open>
  The range \<open>[p_first, p_last)\<close> is the list of dividers; an iterator is a position in
  it, \<open>p_first\<close> is 0 and \<open>p_last\<close> is the length of the list. \<open>closest_loop\<close> is the
  \<open>for\<close> loop: its list argument holds the dividers from \<open>it\<close> on.
\<close>

fun closest_loop ::
    "frequency \<Rightarrow> frequency \<Rightarrow> divider_rule \<Rightarrow> u32 list \<Rightarrow> nat \<Rightarrow> nat \<Rightarrow> u32 \<Rightarrow> nat" where
  "closest_loop p_source p_target p_divider_rule [] it best best_cost = best"
| "closest_loop p_source p_target p_divider_rule (d # ds) it best best_cost =
     (let candidate = freq_div p_source d in
      if is_applicable p_target p_divider_rule candidate \<and> cost p_target candidate < best_cost
      then closest_loop p_source p_target p_divider_rule ds (Suc it) it (cost p_target candidate)
      else closest_loop p_source p_target p_divider_rule ds (Suc it) best best_cost)"

definition closest :: "frequency \<Rightarrow> u32 list \<Rightarrow> frequency \<Rightarrow> divider_rule \<Rightarrow> nat" where
  "closest p_source dividers p_target p_divider_rule =
     closest_loop p_source p_target p_divider_rule dividers 0 (length dividers) 0xFFFFFFFF"

section \<open>Driver lifecycle (driver.hpp)\<close>

text \<open>
  The three private members of \<open>driver<settings_t>\<close>. A freshly constructed driver holds
  the value-initialised settings in both slots.
\<close>

record 's driver =
  m_settings :: 's
  m_initialized_settings :: 's
  m_initialized :: bool

definition new_driver :: "'s \<Rightarrow> 's driver" where
  "new_driver default_settings =
     \<lparr>m_settings = default_settings, m_initialized_settings = default_settings,
      m_initialized = False\<rparr>"

definition is_initialized :: "'s driver \<Rightarrow> bool" where
  "is_initialized d = m_initialized d"

definition settings :: "'s driver \<Rightarrow> 's" where
  "settings d = m_settings d"

definition initialized_settings :: "'s driver \<Rightarrow> 's" where
  "initialized_settings d = m_initialized_settings d"

definition set_as_uninitialized :: "'s driver \<Rightarrow> 's driver" where
  "set_as_uninitialized d = d\<lparr>m_initialized := False\<rparr>"

text \<open>
  \<open>driver_initialize\<close> is pure virtual: the derived driver's body. It runs on the object,
  so it reads the driver, and it can write what a derived class can reach: the staged
  settings (through \<open>settings()\<close>) and the derived class's own state \<open>'z\<close>. The two other
  members are private and have no setter. The body is the first argument of
  \<open>initialize\<close>; it returns its result, the staged settings and its own state as it
  leaves them.

  \<open>EMBED_CHECK\<close> returns the body's failure to the caller. The scope guard
  \<open>embed::error::setup()\<close> (\<open>error.hpp\<close>, not among the sources) attaches a tag to a
  failure that passes; the failure value itself is the body's.
\<close>

type_synonym ('e, 's, 'z) driver_body = "'s driver \<Rightarrow> 'z \<Rightarrow> ('e + unit) \<times> 's \<times> 'z"

definition initialize ::
    "('e, 's, 'z) driver_body \<Rightarrow> 's driver \<times> 'z \<Rightarrow> ('e + unit) \<times> 's driver \<times> 'z" where
  "initialize driver_initialize dz =
     (case dz of (d, z) \<Rightarrow>
        (case driver_initialize d z of (result, s', z') \<Rightarrow>
           (let d' = d\<lparr>m_settings := s'\<rparr> in
            case result of
              Inl e \<Rightarrow> (Inl e, d', z')
            | Inr u \<Rightarrow>
                (Inr (), d'\<lparr>m_initialized_settings := m_settings d', m_initialized := True\<rparr>, z'))))"

text \<open>
  \<open>settings()\<close> returns a mutable reference; \<open>stage\<close> is an assignment through it.
\<close>

definition stage :: "'s \<Rightarrow> 's driver \<Rightarrow> 's driver" where
  "stage s d = d\<lparr>m_settings := s\<rparr>"

text \<open>
  Sample bodies for concrete drivers over a numeric setting. \<open>plain_body\<close> succeeds
  and leaves the staged setting alone; \<open>failing_body\<close> fails with the error it is given;
  \<open>clamping_body\<close> succeeds after writing the staged setting through \<open>settings()\<close>
  (it lowers a request above 100 to 100).
\<close>

definition plain_body :: "(string, nat, unit) driver_body" where
  "plain_body d z = (Inr (), m_settings d, z)"

definition failing_body :: "string \<Rightarrow> (string, nat, unit) driver_body" where
  "failing_body e d z = (Inl e, m_settings d, z)"

definition clamping_body :: "(string, nat, unit) driver_body" where
  "clamping_body d z = (Inr (), min (m_settings d) 100, z)"

section \<open>Facts about the machine integers\<close>

lemma unat_u32_bound: "unat (w :: u32) < 4294967296"
  using unsigned_less [of w, where 'a = nat] by simp

lemma unat_ucast_u32_u64: "unat (ucast (w :: u32) :: u64) = unat w"
  using unat_u32_bound [of w]
  by (simp add: unsigned_ucast_eq take_bit_nat_eq_self)

lemma unat_overflow_total:
  "unat ((ucast (h :: u32) :: u64) + (ucast (l :: u32) :: u64)) = unat h + unat l"
proof -
  have "unat h + unat l < 2 ^ 64"
    using unat_u32_bound [of h] unat_u32_bound [of l] by simp
  then show ?thesis
    by (simp add: unat_word_ariths unat_ucast_u32_u64)
qed

lemma u64_gt_max_iff: "((x :: u64) > 0xFFFFFFFF) = (unat x > 4294967295)"
  by (simp add: word_less_nat_alt)

lemma unat_ucast_u64_u32:
  "unat (x :: u64) \<le> 4294967295 \<Longrightarrow> unat (ucast x :: u32) = unat x"
  by (simp add: unsigned_ucast_eq take_bit_nat_eq_self)

lemma unat_half: "unat (drop_bit 1 (x :: 'a::len word)) = unat x div 2"
  unfolding unat_drop_bit_eq by (simp add: drop_bit_eq_div)

lemma unat_u32_add:
  "unat (h :: u32) + unat (l :: u32) \<le> 4294967295 \<Longrightarrow> unat (h + l) = unat h + unat l"
  by (simp add: unat_word_ariths)

section \<open>Duty cycle to percent\<close>

text \<open>The branch taken when the 64-bit sum fits 32 bits: the operands are not changed.\<close>

lemma duty_cycle_ratio_fits:
  assumes "unat (high dc) + unat (low dc) \<le> 4294967295"
  shows "duty_cycle_ratio dc = (high dc, high dc + low dc)"
proof -
  let ?t = "(ucast (high dc) :: u64) + (ucast (low dc) :: u64)"
  have t: "unat ?t = unat (high dc) + unat (low dc)" by (rule unat_overflow_total)
  have "unat (ucast ?t :: u32) = unat (high dc + low dc)"
    using assms by (simp add: unat_ucast_u64_u32 t unat_u32_add)
  then have "(ucast ?t :: u32) = high dc + low dc"
    by (simp add: word_unat_eq_iff)
  moreover have "\<not> ?t > 0xFFFFFFFF"
    using assms by (simp add: u64_gt_max_iff t)
  ultimately show ?thesis
    by (simp add: duty_cycle_ratio_def Let_def)
qed

text \<open>The branch taken when the sum does not fit: both operands are shifted right by one.\<close>

lemma duty_cycle_ratio_halved:
  assumes "4294967295 < unat (high dc) + unat (low dc)"
  shows "fst (duty_cycle_ratio dc) = drop_bit 1 (high dc)"
    and "unat (fst (duty_cycle_ratio dc)) = unat (high dc) div 2"
    and "unat (snd (duty_cycle_ratio dc)) = (unat (high dc) + unat (low dc)) div 2"
proof -
  let ?t = "(ucast (high dc) :: u64) + (ucast (low dc) :: u64)"
  have t: "unat ?t = unat (high dc) + unat (low dc)" by (rule unat_overflow_total)
  have gt: "?t > 0xFFFFFFFF"
    using assms by (simp add: u64_gt_max_iff t)
  then have r: "duty_cycle_ratio dc = (drop_bit 1 (high dc), ucast (drop_bit 1 ?t))"
    by (simp add: duty_cycle_ratio_def Let_def)
  show "fst (duty_cycle_ratio dc) = drop_bit 1 (high dc)" by (simp add: r)
  show "unat (fst (duty_cycle_ratio dc)) = unat (high dc) div 2"
    by (simp only: r fst_conv unat_half)
  have "unat (drop_bit 1 ?t) = (unat (high dc) + unat (low dc)) div 2"
    by (simp only: unat_half t)
  moreover have "(unat (high dc) + unat (low dc)) div 2 \<le> 4294967295"
    using unat_u32_bound [of "high dc"] unat_u32_bound [of "low dc"] by simp
  ultimately show "unat (snd (duty_cycle_ratio dc)) = (unat (high dc) + unat (low dc)) div 2"
    by (simp only: r snd_conv unat_ucast_u64_u32)
qed

lemma duty_cycle_ratio_le: "fst (duty_cycle_ratio dc) \<le> snd (duty_cycle_ratio dc)"
proof (cases "unat (high dc) + unat (low dc) \<le> 4294967295")
  case True
  then have "unat (high dc) \<le> unat (high dc + low dc)"
    by (simp add: unat_u32_add)
  then show ?thesis
    using True by (simp add: duty_cycle_ratio_fits word_le_nat_alt)
next
  case False
  then have big: "4294967295 < unat (high dc) + unat (low dc)" by simp
  have "unat (high dc) div 2 \<le> (unat (high dc) + unat (low dc)) div 2"
    by (rule div_le_mono) simp
  then show ?thesis
    by (simp only: word_le_nat_alt duty_cycle_ratio_halved(2,3) [OF big])
qed

text \<open>
  C10. For every duty cycle, whether or not \<open>high + low\<close> overflows 32 bits, the conversion
  to percent calls \<open>percent::from_ratio(scaled_high, total_cycles)\<close> with
  \<open>scaled_high \<le> total_cycles\<close> (unsigned comparison): the numerator never exceeds the
  denominator, in the halved branch and in the other.
\<close>

theorem to_percent_numerator_le_denominator:
  "to_percent dc = from_ratio (fst (duty_cycle_ratio dc)) (snd (duty_cycle_ratio dc))
   \<and> fst (duty_cycle_ratio dc) \<le> snd (duty_cycle_ratio dc)
   \<and> unat (fst (duty_cycle_ratio dc)) \<le> unat (snd (duty_cycle_ratio dc))"
proof -
  have "to_percent dc = from_ratio (fst (duty_cycle_ratio dc)) (snd (duty_cycle_ratio dc))"
    by (simp add: to_percent_def split: prod.splits)
  moreover have "unat (fst (duty_cycle_ratio dc)) \<le> unat (snd (duty_cycle_ratio dc))"
    using duty_cycle_ratio_le [of dc] by (simp add: word_le_nat_alt)
  ultimately show ?thesis
    using duty_cycle_ratio_le [of dc] by simp
qed

section \<open>Properties of the driver lifecycle\<close>

lemma initialize_failure:
  assumes "driver_initialize d z = (Inl e, s', z')"
  shows "initialize driver_initialize (d, z) = (Inl e, d\<lparr>m_settings := s'\<rparr>, z')"
  using assms by (simp add: initialize_def Let_def)

lemma initialize_success:
  assumes "driver_initialize d z = (Inr u, s', z')"
  shows "initialize driver_initialize (d, z) =
           (Inr (), d\<lparr>m_settings := s', m_initialized_settings := s', m_initialized := True\<rparr>, z')"
  using assms by (simp add: initialize_def Let_def)

lemma initialize_cases:
  obtains (failure) e s' z' where "driver_initialize d z = (Inl e, s', z')"
  | (success) s' z' where "driver_initialize d z = (Inr (), s', z')"
proof (cases "driver_initialize d z")
  case (fields r s' z')
  then show ?thesis
    by (cases r) (auto intro: failure success)
qed

text \<open>
  C7. For every driver and every staged settings value: if the driver-specific body
  \<open>driver_initialize()\<close> fails with \<open>e\<close>, then \<open>initialize()\<close> returns that same failure
  \<open>e\<close>, \<open>is_initialized()\<close> is what it was before the call (so it remains false for a
  driver that was not initialized), and \<open>initialized_settings()\<close> is what it was before
  the call: nothing is committed.
\<close>

theorem initialize_failure_commits_nothing:
  assumes "fst (driver_initialize d z) = Inl e"
  shows "fst (initialize driver_initialize (d, z)) = Inl e
       \<and> is_initialized (fst (snd (initialize driver_initialize (d, z)))) = is_initialized d
       \<and> (\<not> is_initialized d \<longrightarrow> \<not> is_initialized (fst (snd (initialize driver_initialize (d, z)))))
       \<and> initialized_settings (fst (snd (initialize driver_initialize (d, z))))
           = initialized_settings d"
proof -
  obtain s' z' where "driver_initialize d z = (Inl e, s', z')"
    using assms by (cases "driver_initialize d z") simp
  then have "initialize driver_initialize (d, z) = (Inl e, d\<lparr>m_settings := s'\<rparr>, z')"
    by (rule initialize_failure)
  then show ?thesis
    by (simp add: is_initialized_def initialized_settings_def)
qed

theorem initialize_failure_commits_nothing_witness:
  "fst (failing_body ''no clock'' (new_driver 9600) ()) = Inl ''no clock''
   \<and> fst (initialize (failing_body ''no clock'') (new_driver 9600, ())) = Inl ''no clock''
   \<and> \<not> is_initialized (new_driver (9600 :: nat))
   \<and> \<not> is_initialized (fst (snd (initialize (failing_body ''no clock'') (new_driver 9600, ()))))
   \<and> initialized_settings (fst (snd (initialize (failing_body ''no clock'') (new_driver 9600, ()))))
       = 9600"
proof -
  have h: "fst (failing_body ''no clock'' (new_driver 9600) ()) = Inl ''no clock''"
    by (simp add: failing_body_def)
  have n: "\<not> is_initialized (new_driver (9600 :: nat))"
    and s: "initialized_settings (new_driver (9600 :: nat)) = 9600"
    by (simp_all add: is_initialized_def initialized_settings_def new_driver_def)
  show ?thesis
    using initialize_failure_commits_nothing
        [of "failing_body ''no clock''" "new_driver 9600" "()" "''no clock''"] h n s
    by simp
qed

text \<open>
  C8, as the code has it. A freshly constructed driver reports \<open>is_initialized() == false\<close>.
  After a successful \<open>initialize()\<close>, \<open>is_initialized() == true\<close> and
  \<open>initialized_settings()\<close> equals the staged settings as they stand when the
  driver-specific body has returned, which is what \<open>settings()\<close> gives after the call;
  these are the settings staged at the moment of the call whenever the body has not
  written them. After a following \<open>set_as_uninitialized()\<close>, \<open>is_initialized() == false\<close>
  while \<open>initialized_settings()\<close> and \<open>settings()\<close> are what they were.
\<close>

theorem driver_lifecycle:
  "\<not> is_initialized (new_driver default_settings)
   \<and> (fst (initialize driver_initialize (d, z)) = Inr () \<longrightarrow>
        is_initialized (fst (snd (initialize driver_initialize (d, z))))
      \<and> initialized_settings (fst (snd (initialize driver_initialize (d, z))))
          = settings (fst (snd (initialize driver_initialize (d, z))))
      \<and> settings (fst (snd (initialize driver_initialize (d, z))))
          = fst (snd (driver_initialize d z))
      \<and> (fst (snd (driver_initialize d z)) = settings d \<longrightarrow>
           initialized_settings (fst (snd (initialize driver_initialize (d, z)))) = settings d))
   \<and> \<not> is_initialized (set_as_uninitialized d')
   \<and> initialized_settings (set_as_uninitialized d') = initialized_settings d'
   \<and> settings (set_as_uninitialized d') = settings d'"
proof -
  have fresh: "\<not> is_initialized (new_driver default_settings)"
    by (simp add: is_initialized_def new_driver_def)
  have reset: "\<not> is_initialized (set_as_uninitialized d')"
    "initialized_settings (set_as_uninitialized d') = initialized_settings d'"
    "settings (set_as_uninitialized d') = settings d'"
    by (simp_all add: is_initialized_def initialized_settings_def settings_def
        set_as_uninitialized_def)
  have commit: "is_initialized (fst (snd (initialize driver_initialize (d, z))))
      \<and> initialized_settings (fst (snd (initialize driver_initialize (d, z))))
          = settings (fst (snd (initialize driver_initialize (d, z))))
      \<and> settings (fst (snd (initialize driver_initialize (d, z))))
          = fst (snd (driver_initialize d z))
      \<and> (fst (snd (driver_initialize d z)) = settings d \<longrightarrow>
           initialized_settings (fst (snd (initialize driver_initialize (d, z)))) = settings d)"
    if ok: "fst (initialize driver_initialize (d, z)) = Inr ()"
  proof (cases rule: initialize_cases [of driver_initialize d z])
    case (failure e s' z')
    then show ?thesis
      using ok by (simp add: initialize_failure)
  next
    case (success s' z')
    then show ?thesis
      by (simp add: initialize_success is_initialized_def initialized_settings_def settings_def)
  qed
  show ?thesis
    using fresh reset commit by blast
qed

theorem driver_lifecycle_witness:
  "\<not> is_initialized (new_driver (9600 :: nat))
   \<and> fst (initialize plain_body (new_driver 9600, ())) = Inr ()
   \<and> fst (snd (plain_body (new_driver 9600) ())) = settings (new_driver 9600)
   \<and> is_initialized (fst (snd (initialize plain_body (new_driver 9600, ()))))
   \<and> initialized_settings (fst (snd (initialize plain_body (new_driver 9600, ())))) = 9600
   \<and> \<not> is_initialized (set_as_uninitialized (fst (snd (initialize plain_body (new_driver 9600, ())))))
   \<and> initialized_settings
        (set_as_uninitialized (fst (snd (initialize plain_body (new_driver 9600, ()))))) = 9600"
proof -
  have ok: "fst (initialize plain_body (new_driver 9600, ())) = Inr ()"
    by (simp add: initialize_def Let_def plain_body_def)
  have same: "fst (snd (plain_body (new_driver 9600) ())) = settings (new_driver 9600)"
    by (simp add: plain_body_def settings_def)
  have staged: "settings (new_driver (9600 :: nat)) = 9600"
    by (simp add: settings_def new_driver_def)
  show ?thesis
    using driver_lifecycle [of "9600 :: nat" plain_body "new_driver 9600" "()"
        "fst (snd (initialize plain_body (new_driver 9600, ())))"]
      ok same staged
    by simp
qed

text \<open>
  The claim as the spec words it fails for a body that writes the staged settings: a
  driver staged with 250 whose body lowers the request to 100 initializes successfully,
  and \<open>initialized_settings()\<close> is then 100, not the 250 staged at the moment of the call.
\<close>

theorem driver_lifecycle_counterexample:
  "settings (stage 250 (new_driver 0)) = 250
   \<and> fst (initialize clamping_body (stage 250 (new_driver 0), ())) = Inr ()
   \<and> initialized_settings
        (fst (snd (initialize clamping_body (stage 250 (new_driver 0), ())))) = 100
   \<and> initialized_settings
        (fst (snd (initialize clamping_body (stage 250 (new_driver 0), ()))))
       \<noteq> settings (stage 250 (new_driver 0))"
  by (simp add: initialize_def Let_def clamping_body_def new_driver_def settings_def
      initialized_settings_def stage_def)

section \<open>Scaling a frequency up\<close>

text \<open>
  C4. For every frequency \<open>f\<close> and unsigned scalar \<open>s\<close>: when the mathematical product
  \<open>f.value_hz * s\<close> fits 32 bits, \<open>f * s\<close> is the frequency whose value is exactly that
  product; when it does not fit, \<open>f * s\<close> is the Overflow failure and no wrapped value
  is returned.
\<close>

theorem frequency_times_scalar_checked:
  "(unat (value_hz f) * unat s < 2 ^ 32 \<longrightarrow>
      freq_mul f s = Inr \<lparr>value_hz = value_hz f * s\<rparr>
    \<and> unat (value_hz f * s) = unat (value_hz f) * unat s)
   \<and> (2 ^ 32 \<le> unat (value_hz f) * unat s \<longrightarrow> freq_mul f s = Inl Overflow)"
proof -
  have "unat (value_hz f * s) = unat (value_hz f) * unat s"
    if "unat (value_hz f) * unat s < 2 ^ 32"
    using that by (simp add: unat_word_ariths)
  then show ?thesis
    by (simp add: freq_mul_def multiply_def)
qed

theorem frequency_times_scalar_checked_witness:
  "unat (value_hz \<lparr>value_hz = 1000000\<rparr>) * unat (1000 :: u32) < 2 ^ 32
   \<and> freq_mul \<lparr>value_hz = 1000000\<rparr> 1000 = Inr \<lparr>value_hz = 1000000000\<rparr>
   \<and> 2 ^ 32 \<le> unat (value_hz \<lparr>value_hz = 1000000\<rparr>) * unat (5000 :: u32)
   \<and> freq_mul \<lparr>value_hz = 1000000\<rparr> 5000 = Inl Overflow"
  using frequency_times_scalar_checked [of "\<lparr>value_hz = 1000000\<rparr>" 1000]
    frequency_times_scalar_checked [of "\<lparr>value_hz = 1000000\<rparr>" 5000]
  by simp

section \<open>Duty cycle from a cycle count\<close>

lemma scale_in_range:
  assumes "in_unit_interval p"
  shows "0 \<le> \<lfloor>of_nat (unat c) * ratio_of p\<rfloor>"
    and "\<lfloor>of_nat (unat c) * ratio_of p\<rfloor> \<le> int (unat c)"
proof -
  have r: "0 \<le> ratio_of p" "ratio_of p \<le> 1"
    using assms by (simp_all add: in_unit_interval_def)
  have "0 \<le> (of_nat (unat c) :: rat) * ratio_of p"
    by (rule mult_nonneg_nonneg [OF of_nat_0_le_iff r(1)])
  then show "0 \<le> \<lfloor>of_nat (unat c) * ratio_of p\<rfloor>"
    by (simp only: zero_le_floor)
  have "(of_nat (unat c) :: rat) * ratio_of p \<le> of_nat (unat c) * 1"
    by (rule mult_left_mono [OF r(2) of_nat_0_le_iff])
  then have "(of_nat (unat c) :: rat) * ratio_of p \<le> of_int (int (unat c))"
    by (simp only: mult_1_right of_int_of_nat_eq)
  then have "\<lfloor>(of_nat (unat c) :: rat) * ratio_of p\<rfloor> \<le> \<lfloor>(of_int (int (unat c)) :: rat)\<rfloor>"
    by (rule floor_mono)
  then show "\<lfloor>of_nat (unat c) * ratio_of p\<rfloor> \<le> int (unat c)"
    by (simp only: floor_of_int)
qed

lemma uint_scale:
  assumes "in_unit_interval p"
  shows "uint (scale c p) = \<lfloor>of_nat (unat c) * ratio_of p\<rfloor>"
proof -
  let ?k = "\<lfloor>of_nat (unat c) * ratio_of p\<rfloor>"
  have "?k \<le> int (unat c)" "0 \<le> ?k"
    using scale_in_range [OF assms, of c] by simp_all
  moreover have "int (unat c) < 2 ^ LENGTH(32)"
    using unsigned_less [of c, where 'a = int] by simp
  ultimately have "0 \<le> ?k" "?k < 2 ^ LENGTH(32)" by linarith+
  then have "uint (word_of_int ?k :: u32) = ?k"
    by (simp add: uint_word_of_int take_bit_int_eq_self)
  then show ?thesis by (simp add: scale_def)
qed

lemma scale_le:
  assumes "in_unit_interval p"
  shows "scale c p \<le> c"
proof -
  have "uint (scale c p) \<le> int (unat c)"
    using scale_in_range(2) [OF assms, of c] by (simp only: uint_scale [OF assms])
  then have "uint (scale c p) \<le> uint c"
    by simp
  then show ?thesis by (simp add: word_le_def)
qed

text \<open>
  C3. For every unsigned 32-bit cycle count and every percent in [0,1],
  \<open>calculate_duty_cycle(cycles, percent)\<close> returns \<open>high\<close> equal to the floor of
  \<open>cycles * percent\<close> and \<open>low\<close> equal to \<open>cycles - high\<close> (no wrap), with
  \<open>high \<le> cycles\<close>. In particular \<open>calculate_duty_cycle(10, from_ratio(1,2))\<close> is
  \<open>{high:5, low:5}\<close> and \<open>calculate_duty_cycle(10, from_ratio(1,3))\<close> is \<open>{high:3, low:7}\<close>.
\<close>

theorem calculate_duty_cycle_split:
  "(in_unit_interval p \<longrightarrow>
      uint (high (calculate_duty_cycle c p)) = \<lfloor>of_nat (unat c) * ratio_of p\<rfloor>
    \<and> low (calculate_duty_cycle c p) = c - high (calculate_duty_cycle c p)
    \<and> high (calculate_duty_cycle c p) \<le> c
    \<and> unat (low (calculate_duty_cycle c p)) = unat c - unat (high (calculate_duty_cycle c p))
    \<and> unat (high (calculate_duty_cycle c p)) + unat (low (calculate_duty_cycle c p)) = unat c)
   \<and> calculate_duty_cycle 10 (from_ratio 1 2) = \<lparr>high = 5, low = 5\<rparr>
   \<and> calculate_duty_cycle 10 (from_ratio 1 3) = \<lparr>high = 3, low = 7\<rparr>"
proof -
  have half: "calculate_duty_cycle 10 (from_ratio 1 2) = \<lparr>high = 5, low = 5\<rparr>"
    by code_simp
  have third: "calculate_duty_cycle 10 (from_ratio 1 3) = \<lparr>high = 3, low = 7\<rparr>"
    by code_simp
  have fields: "high (calculate_duty_cycle c p) = scale c p"
    "low (calculate_duty_cycle c p) = c - scale c p"
    by (simp_all add: calculate_duty_cycle_def Let_def)
  have general: "uint (scale c p) = \<lfloor>of_nat (unat c) * ratio_of p\<rfloor>
    \<and> scale c p \<le> c
    \<and> unat (c - scale c p) = unat c - unat (scale c p)
    \<and> unat (scale c p) + unat (c - scale c p) = unat c"
    if p: "in_unit_interval p"
  proof -
    have le: "scale c p \<le> c" by (rule scale_le [OF p])
    then have sub: "unat (c - scale c p) = unat c - unat (scale c p)"
      by (rule unat_sub)
    have "unat (scale c p) \<le> unat c"
      using le by (simp add: word_le_nat_alt)
    then have "unat (scale c p) + unat (c - scale c p) = unat c"
      by (simp only: sub le_add_diff_inverse)
    then show ?thesis
      using le sub uint_scale [OF p, of c] by blast
  qed
  show ?thesis
    unfolding fields using half third general by blast
qed

theorem calculate_duty_cycle_split_witness:
  "in_unit_interval (from_ratio 1 3)
   \<and> uint (high (calculate_duty_cycle 10 (from_ratio 1 3))) = 3
   \<and> high (calculate_duty_cycle 10 (from_ratio 1 3)) \<le> 10
   \<and> unat (low (calculate_duty_cycle 10 (from_ratio 1 3))) = 7"
proof -
  have u: "in_unit_interval (from_ratio 1 3)"
    by (simp add: in_unit_interval_def from_ratio_def)
  have f: "\<lfloor>of_nat (unat (10 :: u32)) * ratio_of (from_ratio 1 3)\<rfloor> = 3"
    by code_simp
  note split = calculate_duty_cycle_split [of "from_ratio 1 3" 10, THEN conjunct1, rule_format, OF u]
  have h: "uint (high (calculate_duty_cycle 10 (from_ratio 1 3))) = 3"
    using split f by (simp only:)
  have le: "high (calculate_duty_cycle 10 (from_ratio 1 3)) \<le> 10"
    using split by blast
  have "unat (high (calculate_duty_cycle 10 (from_ratio 1 3))) = 3"
    using h by (simp only: unat_eq_nat_uint nat_numeral)
  moreover have "unat (low (calculate_duty_cycle 10 (from_ratio 1 3)))
      = unat (10 :: u32) - unat (high (calculate_duty_cycle 10 (from_ratio 1 3)))"
    using split by blast
  ultimately have l: "unat (low (calculate_duty_cycle 10 (from_ratio 1 3))) = 7"
    by simp
  show ?thesis
    using u h le l by blast
qed

section \<open>Round trip through percent\<close>

lemma from_ratio_in_unit_interval: "in_unit_interval (from_ratio n d)"
proof (cases "d = 0")
  case True
  then show ?thesis by (simp add: from_ratio_def in_unit_interval_def)
next
  case False
  have "0 \<le> (of_nat (unat n) :: rat) / of_nat (unat d)"
    by (rule divide_nonneg_nonneg [OF of_nat_0_le_iff of_nat_0_le_iff])
  then show ?thesis
    using False by (simp add: from_ratio_def in_unit_interval_def)
qed

lemma scale_zero: "in_unit_interval p \<Longrightarrow> scale 0 p = 0"
  using scale_le [of p 0] by simp

text \<open>In the model of percent as an exact fraction the round trip loses nothing.\<close>

lemma round_trip_exact:
  assumes "unat (high dc) + unat (low dc) \<le> 4294967295"
  shows "calculate_duty_cycle (high dc + low dc) (to_percent dc) = dc"
proof -
  let ?h = "high dc" and ?l = "low dc"
  have ratio: "duty_cycle_ratio dc = (?h, ?h + ?l)"
    by (rule duty_cycle_ratio_fits [OF assms])
  then have p: "to_percent dc = from_ratio ?h (?h + ?l)"
    by (simp add: to_percent_def)
  have total: "unat (?h + ?l) = unat ?h + unat ?l"
    by (rule unat_u32_add [OF assms])
  have "scale (?h + ?l) (to_percent dc) = ?h"
  proof (cases "?h + ?l = 0")
    case True
    then have "unat ?h + unat ?l = 0"
      using total by simp
    then have "?h = 0"
      by (simp add: unat_eq_0)
    then show ?thesis
      using True scale_zero [OF from_ratio_in_unit_interval, of ?h "?h + ?l"] by (simp add: p)
  next
    case False
    then have "unat (?h + ?l) \<noteq> 0"
      by (simp only: unat_eq_0 not_False_eq_True)
    then have pos: "0 < unat ?h + unat ?l"
      unfolding total by (simp only: neq0_conv)
    let ?H = "of_nat (unat ?h) :: rat" and ?T = "of_nat (unat ?h + unat ?l) :: rat"
    have T: "0 < ?T" using pos by (simp only: of_nat_0_less_iff)
    have "?H \<le> ?T" by (simp only: of_nat_le_iff le_add1)
    then have "?H / ?T \<le> 1"
      using T by (simp only: divide_le_eq_1_pos)
    then have r: "ratio_of (from_ratio ?h (?h + ?l)) = ?H / ?T"
      using False by (simp add: from_ratio_def total)
    have "?T * (?H / ?T) = of_int (int (unat ?h))"
      using T by simp
    then have "\<lfloor>?T * ratio_of (from_ratio ?h (?h + ?l))\<rfloor> = int (unat ?h)"
      by (simp only: r floor_of_int)
    then have "scale (?h + ?l) (from_ratio ?h (?h + ?l)) = word_of_int (int (unat ?h))"
      by (simp only: scale_def total)
    then show ?thesis
      by (simp add: p)
  qed
  then have "calculate_duty_cycle (?h + ?l) (to_percent dc) = \<lparr>high = ?h, low = ?l\<rparr>"
    by (simp add: calculate_duty_cycle_def Let_def)
  then show ?thesis by simp
qed

text \<open>
  C6. Round trip: for every duty cycle \<open>{high: h, low: l}\<close> whose sum \<open>h + l\<close> fits the
  unsigned 32-bit width, converting it to percent and feeding that percent to
  \<open>calculate_duty_cycle(h + l, percent)\<close> gives a duty cycle whose \<open>high\<close> and \<open>low\<close>
  are each within one cycle of \<open>h\<close> and \<open>l\<close>.
\<close>

theorem duty_cycle_round_trip:
  assumes "unat (high dc) + unat (low dc) \<le> 4294967295"
  shows "\<bar>uint (high (calculate_duty_cycle (high dc + low dc) (to_percent dc))) - uint (high dc)\<bar> \<le> 1
       \<and> \<bar>uint (low (calculate_duty_cycle (high dc + low dc) (to_percent dc))) - uint (low dc)\<bar> \<le> 1"
  by (simp add: round_trip_exact [OF assms])

theorem duty_cycle_round_trip_witness:
  "unat (high \<lparr>high = 3, low = 7\<rparr>) + unat (low \<lparr>high = 3, low = 7\<rparr>) \<le> 4294967295
   \<and> calculate_duty_cycle (3 + 7) (to_percent \<lparr>high = 3, low = 7\<rparr>) = \<lparr>high = 3, low = 7\<rparr>
   \<and> \<bar>uint (high (calculate_duty_cycle (3 + 7) (to_percent \<lparr>high = 3, low = 7\<rparr>))) - 3\<bar> \<le> 1
   \<and> \<bar>uint (low (calculate_duty_cycle (3 + 7) (to_percent \<lparr>high = 3, low = 7\<rparr>))) - 7\<bar> \<le> 1"
proof -
  have fits: "unat (high \<lparr>high = 3, low = 7\<rparr>) + unat (low \<lparr>high = 3, low = 7\<rparr>) \<le> 4294967295"
    by simp
  have run: "calculate_duty_cycle (3 + 7) (to_percent \<lparr>high = 3, low = 7\<rparr>) = \<lparr>high = 3, low = 7\<rparr>"
    by code_simp
  show ?thesis
    using duty_cycle_round_trip [OF fits] fits run by simp
qed

section \<open>The cycle count within the 64-bit budget\<close>

text \<open>The examples the spec gives for the rounding division.\<close>

lemma rounding_division_int_examples:
  "rounding_division_int 5 2 = 3"
  "rounding_division_int 4 2 = 2"
  "rounding_division_int (- 5) 2 = - 3"
  by (simp_all add: rounding_division_int_def)

lemma rounding_division_int_range:
  assumes "0 \<le> n" and "0 < d"
  shows "0 \<le> rounding_division_int n d" and "rounding_division_int n d \<le> n"
proof -
  have q: "0 \<le> (2 * n + d) div (2 * d)"
    using assms by (simp add: pos_imp_zdiv_nonneg_iff)
  have "2 * n \<le> 2 * n * d"
    using assms by (simp add: mult_le_cancel_left1)
  then have "2 * n + d \<le> d + n * (2 * d)"
    by (simp add: algebra_simps)
  then have "(2 * n + d) div (2 * d) \<le> (d + n * (2 * d)) div (2 * d)"
    using assms(2) by (intro zdiv_mono1) simp_all
  also have "\<dots> = n"
    using assms(2) by (simp add: div_pos_pos_trivial)
  finally have le: "(2 * n + d) div (2 * d) \<le> n" .
  have r: "rounding_division_int n d = sgn n * ((2 * n + d) div (2 * d))"
    using assms by (simp add: rounding_division_int_def)
  show "0 \<le> rounding_division_int n d"
    unfolding r using assms(1) q by (simp add: sgn_if)
  show "rounding_division_int n d \<le> n"
    unfolding r using assms(1) le by (simp add: sgn_if)
qed

lemma sint_word_of_int_i64:
  "- 9223372036854775808 \<le> k \<Longrightarrow> k < 9223372036854775808 \<Longrightarrow> sint (word_of_int k :: i64) = k"
  by (simp add: sint_sbintrunc' signed_take_bit_int_eq_self)

lemma sint_mult_i64:
  "- 9223372036854775808 \<le> sint a * sint b \<Longrightarrow> sint a * sint b < 9223372036854775808
    \<Longrightarrow> sint (a * b :: i64) = sint a * sint b"
  by (simp add: sint_word_ariths signed_take_bit_int_eq_self)

lemma sint_ucast_u32_i64: "sint (ucast (v :: u32) :: i64) = uint v"
proof -
  have "uint v < 4294967296"
    using unsigned_less [of v, where 'a = int] by simp
  then have "uint (ucast v :: i64) = uint v"
    by (simp add: unsigned_ucast_eq take_bit_int_eq_self)
  moreover have "sint (ucast v :: i64) = signed_take_bit 63 (uint (ucast v :: i64))"
    by (simp add: sint_uint)
  moreover have "signed_take_bit 63 (uint v) = uint v"
  proof (rule signed_take_bit_int_eq_self)
    have "- (2 ^ 63) \<le> (0 :: int)" by simp
    also have "0 \<le> uint v" by simp
    finally show "- (2 ^ 63) \<le> uint v" .
    show "uint v < 2 ^ 63" using \<open>uint v < 4294967296\<close> by simp
  qed
  ultimately show ?thesis
    by simp
qed

lemma sint_absolute_value:
  assumes "sint x \<noteq> - 9223372036854775808"
  shows "sint (absolute_value x) = \<bar>sint x\<bar>"
proof (cases "sint x < 0")
  case True
  have "- 9223372036854775808 \<le> sint x"
    using sint_ge [of x] by simp
  then have "- 9223372036854775808 \<le> - sint x" "- sint x < 9223372036854775808"
    using assms True by simp_all
  then have "sint (- x) = - sint x"
    by (simp add: sint_word_ariths signed_take_bit_int_eq_self)
  then show ?thesis
    using True by (simp add: absolute_value_def word_sless_alt)
next
  case False
  then show ?thesis
    by (simp add: absolute_value_def word_sless_alt)
qed

text \<open>
  Where the duration is not the least 64-bit value and the product
  \<open>|duration| * frequency_hz * num\<close> fits the signed 64-bit budget the code documents,
  \<open>cycles_per\<close> is the rounded quotient of that product by \<open>den\<close> and is not
  negative: read as unsigned (as the duration overload of \<open>calculate_duty_cycle\<close> does)
  it is the cycle count itself.
\<close>

lemma cycles_per_exact:
  assumes least: "sint (count p_duration) \<noteq> - 9223372036854775808"
    and num: "0 < sint numerator" and den: "0 < sint denominator"
    and fits: "\<bar>sint (count p_duration)\<bar> * uint (value_hz p_source) * sint numerator
                 < 9223372036854775808"
  shows "sint (cycles_per numerator denominator p_source p_duration)
           = rounding_division_int
               (\<bar>sint (count p_duration)\<bar> * uint (value_hz p_source) * sint numerator)
               (sint denominator)"
    and "0 \<le> sint (cycles_per numerator denominator p_source p_duration)"
proof -
  let ?a = "\<bar>sint (count p_duration)\<bar>" and ?f = "uint (value_hz p_source)"
  let ?n = "sint numerator"
  have a: "sint (absolute_value (count p_duration)) = ?a"
    by (rule sint_absolute_value [OF least])
  have f: "sint (ucast (value_hz p_source) :: i64) = ?f"
    by (rule sint_ucast_u32_i64)
  have af0: "0 \<le> ?a * ?f" by simp
  have "?a * ?f * 1 \<le> ?a * ?f * ?n"
    using num by (intro mult_left_mono af0) simp
  then have af: "?a * ?f < 9223372036854775808"
    using fits by simp
  have "- 9223372036854775808 \<le> ?a * ?f"
    using af0 by linarith
  then have p1: "sint (absolute_value (count p_duration) * ucast (value_hz p_source)) = ?a * ?f"
    using sint_mult_i64 [of "absolute_value (count p_duration)" "ucast (value_hz p_source)"] af
    unfolding a f by blast
  have afn0: "0 \<le> ?a * ?f * ?n"
    using num af0 by simp
  have "- 9223372036854775808 \<le> ?a * ?f * ?n"
    using afn0 by linarith
  then have p2: "sint (absolute_value (count p_duration) * ucast (value_hz p_source) * numerator)
      = ?a * ?f * ?n"
    using sint_mult_i64
      [of "absolute_value (count p_duration) * ucast (value_hz p_source)" numerator] fits
    unfolding p1 by blast
  let ?q = "rounding_division_int (?a * ?f * ?n) (sint denominator)"
  have q: "0 \<le> ?q" "?q \<le> ?a * ?f * ?n"
    using rounding_division_int_range [OF afn0 den] by simp_all
  have "sint (word_of_int ?q :: i64) = ?q"
    using q fits by (intro sint_word_of_int_i64) linarith+
  then show "sint (cycles_per numerator denominator p_source p_duration) = ?q"
    by (simp add: cycles_per_def Let_def rounding_division_i64_def p2)
  then show "0 \<le> sint (cycles_per numerator denominator p_source p_duration)"
    using q(1) by simp
qed

section \<open>Duty cycle from a duration\<close>

text \<open>
  C2. For every source frequency, duration and percent, the duration overload first
  computes \<open>cycles_per(source, duration)\<close> and reads it as the unsigned 64-bit \<open>cycles\<close>.
  If \<open>cycles\<close> is greater than the largest unsigned 32-bit value, the result is the
  ValueTooLarge failure. Otherwise the result is exactly
  \<open>calculate_duty_cycle(cycles, percent)\<close>, and the 32-bit count handed over has the
  value of \<open>cycles\<close>: nothing is truncated.
\<close>

theorem calculate_duty_cycle_for_range_check:
  "(4294967295 < unat (cycles_per num den source duration) \<longrightarrow>
      calculate_duty_cycle_for num den source duration p = Inl ValueTooLarge)
   \<and> (unat (cycles_per num den source duration) \<le> 4294967295 \<longrightarrow>
      calculate_duty_cycle_for num den source duration p
        = Inr (calculate_duty_cycle (ucast (cycles_per num den source duration)) p)
    \<and> unat (ucast (cycles_per num den source duration) :: u32)
        = unat (cycles_per num den source duration))"
proof -
  let ?cycles = "cycles_per num den source duration"
  have "calculate_duty_cycle_for num den source duration p = Inl ValueTooLarge"
    if "4294967295 < unat ?cycles"
    using that by (simp add: calculate_duty_cycle_for_def Let_def u64_gt_max_iff)
  moreover have "calculate_duty_cycle_for num den source duration p
        = Inr (calculate_duty_cycle (ucast ?cycles) p)"
    if "unat ?cycles \<le> 4294967295"
    using that by (simp add: calculate_duty_cycle_for_def Let_def u64_gt_max_iff)
  moreover have "unat (ucast ?cycles :: u32) = unat ?cycles"
    if "unat ?cycles \<le> 4294967295"
    using that by (rule unat_ucast_u64_u32)
  ultimately show ?thesis by blast
qed

text \<open>
  A 1 MHz clock over 1 ms (in nanoseconds) is 1000 cycles, split 500/500 at one half;
  a 1 GHz clock over 5 s is 5 000 000 000 cycles, which 32 bits cannot hold.
\<close>

theorem calculate_duty_cycle_for_range_check_witness:
  "unat (cycles_per 1 1000000000 \<lparr>value_hz = 1000000\<rparr> \<lparr>count = 1000000\<rparr>) \<le> 4294967295
   \<and> calculate_duty_cycle_for 1 1000000000 \<lparr>value_hz = 1000000\<rparr> \<lparr>count = 1000000\<rparr>
         (from_ratio 1 2) = Inr \<lparr>high = 500, low = 500\<rparr>
   \<and> 4294967295 < unat (cycles_per 1 1000000000 \<lparr>value_hz = 1000000000\<rparr> \<lparr>count = 5000000000\<rparr>)
   \<and> calculate_duty_cycle_for 1 1000000000 \<lparr>value_hz = 1000000000\<rparr> \<lparr>count = 5000000000\<rparr>
         (from_ratio 1 2) = Inl ValueTooLarge"
proof -
  have small: "cycles_per 1 1000000000 \<lparr>value_hz = 1000000\<rparr> \<lparr>count = 1000000\<rparr> = 1000"
    by (simp add: cycles_per_def absolute_value_def rounding_division_i64_def
        rounding_division_int_def word_sless_alt)
  have big: "cycles_per 1 1000000000 \<lparr>value_hz = 1000000000\<rparr> \<lparr>count = 5000000000\<rparr>
      = 5000000000"
    by (simp add: cycles_per_def absolute_value_def rounding_division_i64_def
        rounding_division_int_def word_sless_alt)
  have split: "calculate_duty_cycle 1000 (from_ratio 1 2) = \<lparr>high = 500, low = 500\<rparr>"
    by code_simp
  show ?thesis
    using calculate_duty_cycle_for_range_check
        [of 1 1000000000 "\<lparr>value_hz = 1000000\<rparr>" "\<lparr>count = 1000000\<rparr>" "from_ratio 1 2"]
      calculate_duty_cycle_for_range_check
        [of 1 1000000000 "\<lparr>value_hz = 1000000000\<rparr>" "\<lparr>count = 5000000000\<rparr>" "from_ratio 1 2"]
    by (simp add: small big split)
qed

section \<open>What the halving does to the ratio\<close>

text \<open>
  Halving numerator and denominator by a right shift drops the low bit of each. With
  \<open>H \<le> T\<close> and \<open>T\<close> at least \<open>2^32\<close> the quotient moves by at most \<open>1 / T\<close>.
\<close>

lemma halved_numerator:
  fixes h t a b :: int
  assumes "0 \<le> h" "h \<le> t" "0 \<le> a" "a \<le> 1" "0 \<le> b" "b \<le> 1"
  shows "\<bar>h * b - a * t\<bar> \<le> t"
proof -
  have "a = 0 \<or> a = 1" "b = 0 \<or> b = 1"
    using assms by auto
  then show ?thesis
    using assms by auto
qed

lemma halving_bound:
  fixes H T :: nat
  assumes "H \<le> T" and "4294967296 \<le> T"
  shows "\<bar>(of_nat (H div 2) :: rat) / of_nat (T div 2) - of_nat H / of_nat T\<bar> \<le> 1 / 2 ^ 32"
proof -
  define h t a b where "h = H div 2" and "t = T div 2" and "a = H mod 2" and "b = T mod 2"
  have H: "H = 2 * h + a" and T: "T = 2 * t + b"
    by (simp_all add: h_def t_def a_def b_def)
  have ab: "a \<le> 1" "b \<le> 1"
    by (simp_all add: a_def b_def)
  have ht: "h \<le> t"
    unfolding h_def t_def by (rule div_le_mono [OF assms(1)])
  have tpos: "0 < t" and Tpos: "0 < T"
    using assms(2) by (simp_all add: t_def)
  let ?n = "int h * int b - int a * int t"
  have "(of_nat h :: rat) / of_nat t - of_nat H / of_nat T
      = (of_nat h * of_nat T - of_nat H * of_nat t) / (of_nat t * of_nat T)"
    using tpos Tpos by (simp add: diff_frac_eq)
  also have "(of_nat h :: rat) * of_nat T - of_nat H * of_nat t = of_int ?n"
    by (simp add: H T algebra_simps)
  finally have diff: "(of_nat h :: rat) / of_nat t - of_nat H / of_nat T
      = of_int ?n / (of_nat t * of_nat T)" .
  have "\<bar>?n\<bar> \<le> int t"
    using ht ab by (intro halved_numerator) simp_all
  then have "\<bar>(of_int ?n :: rat)\<bar> \<le> of_nat t"
    by (metis of_int_abs of_int_le_iff of_int_of_nat_eq)
  then have "\<bar>(of_int ?n :: rat)\<bar> / (of_nat t * of_nat T) \<le> of_nat t / (of_nat t * of_nat T)"
    using tpos Tpos by (intro divide_right_mono) simp_all
  also have "\<dots> = 1 / of_nat T"
    using tpos by simp
  also have "\<dots> \<le> 1 / 2 ^ 32"
  proof -
    have "(of_nat 4294967296 :: rat) \<le> of_nat T"
      using assms(2) by (simp only: of_nat_le_iff)
    then have "(2 ^ 32 :: rat) \<le> of_nat T"
      by simp
    then show ?thesis
      by (intro divide_left_mono) simp_all
  qed
  finally have "\<bar>(of_int ?n :: rat) / (of_nat t * of_nat T)\<bar> \<le> 1 / 2 ^ 32"
    using tpos Tpos by (simp add: abs_divide)
  then have "\<bar>(of_nat h :: rat) / of_nat t - of_nat H / of_nat T\<bar> \<le> 1 / 2 ^ 32"
    by (simp only: diff)
  then show ?thesis
    by (simp only: h_def t_def)
qed

lemma halving_exact:
  fixes H T :: nat
  assumes "even H" and "even T" and "0 < T"
  shows "(of_nat (H div 2) :: rat) / of_nat (T div 2) = of_nat H / of_nat T"
proof -
  obtain h where H: "H = 2 * h" using assms(1) by (auto elim: evenE)
  obtain t where T: "T = 2 * t" using assms(2) by (auto elim: evenE)
  show ?thesis
    by (simp add: H T)
qed

text \<open>
  C5. For every duty cycle the conversion to percent forms the ratio of \<open>high\<close> to
  \<open>high + low\<close>. When the 64-bit sum fits 32 bits the operands are \<open>high\<close> and the sum
  themselves. When the sum exceeds the largest unsigned 32-bit value, both operands are
  shifted right by one (halved, the low bit dropped) before \<open>from_ratio\<close> is called. The
  ratio of the halved operands is the exact ratio when \<open>high\<close> and the sum are both even,
  and differs from it by at most \<open>1 / 2^32\<close> otherwise.
\<close>

theorem duty_cycle_to_percent_halving:
  "to_percent dc = from_ratio (fst (duty_cycle_ratio dc)) (snd (duty_cycle_ratio dc))
   \<and> (unat (high dc) + unat (low dc) \<le> 4294967295 \<longrightarrow>
        duty_cycle_ratio dc = (high dc, high dc + low dc)
      \<and> unat (high dc + low dc) = unat (high dc) + unat (low dc))
   \<and> (4294967295 < unat (high dc) + unat (low dc) \<longrightarrow>
        fst (duty_cycle_ratio dc) = drop_bit 1 (high dc)
      \<and> unat (fst (duty_cycle_ratio dc)) = unat (high dc) div 2
      \<and> unat (snd (duty_cycle_ratio dc)) = (unat (high dc) + unat (low dc)) div 2
      \<and> \<bar>(of_nat (unat (fst (duty_cycle_ratio dc))) :: rat) / of_nat (unat (snd (duty_cycle_ratio dc)))
           - of_nat (unat (high dc)) / of_nat (unat (high dc) + unat (low dc))\<bar> \<le> 1 / 2 ^ 32
      \<and> (even (unat (high dc)) \<and> even (unat (high dc) + unat (low dc)) \<longrightarrow>
           (of_nat (unat (fst (duty_cycle_ratio dc))) :: rat) / of_nat (unat (snd (duty_cycle_ratio dc)))
             = of_nat (unat (high dc)) / of_nat (unat (high dc) + unat (low dc))))"
proof -
  let ?H = "unat (high dc)" and ?T = "unat (high dc) + unat (low dc)"
  have call: "to_percent dc = from_ratio (fst (duty_cycle_ratio dc)) (snd (duty_cycle_ratio dc))"
    by (simp add: to_percent_def split: prod.splits)
  have fits: "duty_cycle_ratio dc = (high dc, high dc + low dc)
      \<and> unat (high dc + low dc) = ?T"
    if "?T \<le> 4294967295"
    using that by (simp add: duty_cycle_ratio_fits unat_u32_add)
  have halved: "fst (duty_cycle_ratio dc) = drop_bit 1 (high dc)
      \<and> unat (fst (duty_cycle_ratio dc)) = ?H div 2
      \<and> unat (snd (duty_cycle_ratio dc)) = ?T div 2
      \<and> \<bar>(of_nat (unat (fst (duty_cycle_ratio dc))) :: rat) / of_nat (unat (snd (duty_cycle_ratio dc)))
           - of_nat ?H / of_nat ?T\<bar> \<le> 1 / 2 ^ 32
      \<and> (even ?H \<and> even ?T \<longrightarrow>
           (of_nat (unat (fst (duty_cycle_ratio dc))) :: rat) / of_nat (unat (snd (duty_cycle_ratio dc)))
             = of_nat ?H / of_nat ?T)"
    if big: "4294967295 < ?T"
  proof -
    note ops = duty_cycle_ratio_halved [OF big]
    have "?H \<le> ?T" by simp
    moreover have "4294967296 \<le> ?T" using big by simp
    ultimately have bound:
      "\<bar>(of_nat (?H div 2) :: rat) / of_nat (?T div 2) - of_nat ?H / of_nat ?T\<bar> \<le> 1 / 2 ^ 32"
      by (rule halving_bound)
    have exact: "(of_nat (?H div 2) :: rat) / of_nat (?T div 2) = of_nat ?H / of_nat ?T"
      if e: "even ?H \<and> even ?T"
    proof -
      have "even ?H" and "even ?T" using e by blast+
      moreover have "0 < ?T" using big by linarith
      ultimately show ?thesis by (rule halving_exact)
    qed
    have bound': "\<bar>(of_nat (unat (fst (duty_cycle_ratio dc))) :: rat)
          / of_nat (unat (snd (duty_cycle_ratio dc))) - of_nat ?H / of_nat ?T\<bar> \<le> 1 / 2 ^ 32"
      unfolding ops(2,3) by (rule bound)
    have exact': "even ?H \<and> even ?T \<longrightarrow>
           (of_nat (unat (fst (duty_cycle_ratio dc))) :: rat) / of_nat (unat (snd (duty_cycle_ratio dc)))
             = of_nat ?H / of_nat ?T"
      unfolding ops(2,3) using exact by blast
    show ?thesis
      using ops bound' exact' by blast
  qed
  show ?thesis
    using call fits halved by blast
qed

text \<open>
  With \<open>high = low = 2^32 - 1\<close> the sum is \<open>2^33 - 2\<close>: the operands handed over are
  \<open>2^31 - 1\<close> and \<open>2^32 - 1\<close>. With \<open>high = 3\<close> and \<open>low = 7\<close> nothing is halved.
\<close>

theorem duty_cycle_to_percent_halving_witness:
  "4294967295 < unat (high \<lparr>high = 0xFFFFFFFF, low = 0xFFFFFFFF\<rparr>)
                + unat (low \<lparr>high = 0xFFFFFFFF, low = 0xFFFFFFFF\<rparr>)
   \<and> duty_cycle_ratio \<lparr>high = 0xFFFFFFFF, low = 0xFFFFFFFF\<rparr> = (0x7FFFFFFF, 0xFFFFFFFF)
   \<and> unat (fst (duty_cycle_ratio \<lparr>high = 0xFFFFFFFF, low = 0xFFFFFFFF\<rparr>)) = 4294967295 div 2
   \<and> unat (high \<lparr>high = 3, low = 7\<rparr>) + unat (low \<lparr>high = 3, low = 7\<rparr>) \<le> 4294967295
   \<and> duty_cycle_ratio \<lparr>high = 3, low = 7\<rparr> = (3, 10)"
proof -
  have big: "4294967295 < unat (high \<lparr>high = 0xFFFFFFFF, low = 0xFFFFFFFF\<rparr>)
                + unat (low \<lparr>high = 0xFFFFFFFF, low = 0xFFFFFFFF\<rparr>)"
    by simp
  have small: "unat (high \<lparr>high = 3, low = 7\<rparr>) + unat (low \<lparr>high = 3, low = 7\<rparr>) \<le> 4294967295"
    by simp
  have run: "duty_cycle_ratio \<lparr>high = 0xFFFFFFFF, low = 0xFFFFFFFF\<rparr> = (0x7FFFFFFF, 0xFFFFFFFF)"
    by (simp add: duty_cycle_ratio_def)
  have "unat (fst (duty_cycle_ratio \<lparr>high = 0xFFFFFFFF, low = 0xFFFFFFFF\<rparr>))
      = unat (high \<lparr>high = 0xFFFFFFFF, low = 0xFFFFFFFF\<rparr>) div 2"
    using duty_cycle_to_percent_halving [of "\<lparr>high = 0xFFFFFFFF, low = 0xFFFFFFFF\<rparr>"] big
    by blast
  then have half: "unat (fst (duty_cycle_ratio \<lparr>high = 0xFFFFFFFF, low = 0xFFFFFFFF\<rparr>))
      = 4294967295 div 2"
    by simp
  have "duty_cycle_ratio \<lparr>high = 3, low = 7\<rparr>
      = (high \<lparr>high = 3, low = 7\<rparr>, high \<lparr>high = 3, low = 7\<rparr> + low \<lparr>high = 3, low = 7\<rparr>)"
    using duty_cycle_to_percent_halving [of "\<lparr>high = 3, low = 7\<rparr>"] small
    by blast
  then have three: "duty_cycle_ratio \<lparr>high = 3, low = 7\<rparr> = (3, 10)"
    by simp
  show ?thesis
    using big run half small three by blast
qed

text \<open>
  In the model of percent as an exact fraction, the percent obtained is the ratio of the
  two operands whenever the denominator handed over is not zero.
\<close>

lemma ratio_of_to_percent:
  assumes "snd (duty_cycle_ratio dc) \<noteq> 0"
  shows "ratio_of (to_percent dc)
           = of_nat (unat (fst (duty_cycle_ratio dc))) / of_nat (unat (snd (duty_cycle_ratio dc)))"
proof -
  let ?n = "unat (fst (duty_cycle_ratio dc))" and ?d = "unat (snd (duty_cycle_ratio dc))"
  have "?d \<noteq> 0"
    using assms by (simp only: unat_eq_0 not_False_eq_True)
  then have d: "0 < (of_nat ?d :: rat)"
    by (simp only: of_nat_0_less_iff neq0_conv)
  have "?n \<le> ?d"
    using duty_cycle_ratio_le [of dc] by (simp only: word_le_nat_alt)
  then have "(of_nat ?n :: rat) \<le> of_nat ?d"
    by (simp only: of_nat_le_iff)
  then have "(of_nat ?n :: rat) / of_nat ?d \<le> 1"
    using d by (simp only: divide_le_eq_1_pos)
  then have "min 1 ((of_nat ?n :: rat) / of_nat ?d) = of_nat ?n / of_nat ?d"
    by (rule min_absorb2)
  moreover have "to_percent dc
      = from_ratio (fst (duty_cycle_ratio dc)) (snd (duty_cycle_ratio dc))"
    by (simp add: to_percent_def split: prod.splits)
  ultimately show ?thesis
    using assms by (simp add: from_ratio_def)
qed

section \<open>Properties of the divider search\<close>

text \<open>
  What the loop returns, for any starting state. Either no candidate improved on the
  running best, and then every applicable candidate costs at least \<open>best_cost\<close>; or the
  result is the position of an applicable candidate that costs less than \<open>best_cost\<close>,
  no more than any applicable candidate, and strictly less than every applicable
  candidate before it.
\<close>

lemma closest_loop_result:
  fixes p_source p_target :: frequency and p_divider_rule :: divider_rule
  defines "A \<equiv> \<lambda>d. is_applicable p_target p_divider_rule (freq_div p_source d)"
    and "K \<equiv> \<lambda>d. cost p_target (freq_div p_source d)"
  shows "(closest_loop p_source p_target p_divider_rule ds it best best_cost = best
          \<and> (\<forall>j < length ds. A (ds ! j) \<longrightarrow> best_cost \<le> K (ds ! j)))
       \<or> (\<exists>k < length ds.
            closest_loop p_source p_target p_divider_rule ds it best best_cost = it + k
          \<and> A (ds ! k) \<and> K (ds ! k) < best_cost
          \<and> (\<forall>j < length ds. A (ds ! j) \<longrightarrow> K (ds ! k) \<le> K (ds ! j))
          \<and> (\<forall>j < k. A (ds ! j) \<longrightarrow> K (ds ! k) < K (ds ! j)))"
proof (induction ds arbitrary: it best best_cost)
  case Nil
  then show ?case by simp
next
  case (Cons d ds)
  let ?loop = "closest_loop p_source p_target p_divider_rule"
  show ?case
  proof (cases "A d \<and> K d < best_cost")
    case True
    then have step: "?loop (d # ds) it best best_cost = ?loop ds (Suc it) it (K d)"
      by (simp add: A_def K_def Let_def)
    from Cons.IH [of "Suc it" it "K d"] show ?thesis
    proof (elim disjE conjE exE)
      assume r: "?loop ds (Suc it) it (K d) = it"
        and rest: "\<forall>j < length ds. A (ds ! j) \<longrightarrow> K d \<le> K (ds ! j)"
      have "\<forall>j < length (d # ds). A ((d # ds) ! j) \<longrightarrow> K ((d # ds) ! 0) \<le> K ((d # ds) ! j)"
        using rest by (auto simp: nth_Cons split: nat.splits)
      then have "0 < length (d # ds) \<and> ?loop (d # ds) it best best_cost = it + 0
          \<and> A ((d # ds) ! 0) \<and> K ((d # ds) ! 0) < best_cost
          \<and> (\<forall>j < length (d # ds). A ((d # ds) ! j) \<longrightarrow> K ((d # ds) ! 0) \<le> K ((d # ds) ! j))
          \<and> (\<forall>j < 0. A ((d # ds) ! j) \<longrightarrow> K ((d # ds) ! 0) < K ((d # ds) ! j))"
        using True step r by simp
      then show ?thesis by blast
    next
      fix k
      assume k: "k < length ds"
        and r: "?loop ds (Suc it) it (K d) = Suc it + k"
        and a: "A (ds ! k)" and c: "K (ds ! k) < K d"
        and least: "\<forall>j < length ds. A (ds ! j) \<longrightarrow> K (ds ! k) \<le> K (ds ! j)"
        and first: "\<forall>j < k. A (ds ! j) \<longrightarrow> K (ds ! k) < K (ds ! j)"
      have "K (ds ! k) < best_cost" using c True by (blast intro: less_trans)
      moreover have "\<forall>j < length (d # ds). A ((d # ds) ! j) \<longrightarrow> K (ds ! k) \<le> K ((d # ds) ! j)"
        using least c by (auto simp: nth_Cons split: nat.splits)
      moreover have "\<forall>j < Suc k. A ((d # ds) ! j) \<longrightarrow> K (ds ! k) < K ((d # ds) ! j)"
        using first c by (auto simp: nth_Cons split: nat.splits)
      ultimately have "Suc k < length (d # ds) \<and> ?loop (d # ds) it best best_cost = it + Suc k
          \<and> A ((d # ds) ! Suc k) \<and> K ((d # ds) ! Suc k) < best_cost
          \<and> (\<forall>j < length (d # ds). A ((d # ds) ! j) \<longrightarrow> K ((d # ds) ! Suc k) \<le> K ((d # ds) ! j))
          \<and> (\<forall>j < Suc k. A ((d # ds) ! j) \<longrightarrow> K ((d # ds) ! Suc k) < K ((d # ds) ! j))"
        using k r a step by simp
      then show ?thesis by blast
    qed
  next
    case False
    then have step: "?loop (d # ds) it best best_cost = ?loop ds (Suc it) best best_cost"
      by (auto simp add: A_def K_def Let_def)
    have here: "A d \<longrightarrow> best_cost \<le> K d"
      using False by auto
    from Cons.IH [of "Suc it" best best_cost] show ?thesis
    proof (elim disjE conjE exE)
      assume r: "?loop ds (Suc it) best best_cost = best"
        and rest: "\<forall>j < length ds. A (ds ! j) \<longrightarrow> best_cost \<le> K (ds ! j)"
      have "\<forall>j < length (d # ds). A ((d # ds) ! j) \<longrightarrow> best_cost \<le> K ((d # ds) ! j)"
        using rest here by (auto simp: nth_Cons split: nat.splits)
      then show ?thesis
        using step r by simp
    next
      fix k
      assume k: "k < length ds"
        and r: "?loop ds (Suc it) best best_cost = Suc it + k"
        and a: "A (ds ! k)" and c: "K (ds ! k) < best_cost"
        and least: "\<forall>j < length ds. A (ds ! j) \<longrightarrow> K (ds ! k) \<le> K (ds ! j)"
        and first: "\<forall>j < k. A (ds ! j) \<longrightarrow> K (ds ! k) < K (ds ! j)"
      have "\<forall>j < length (d # ds). A ((d # ds) ! j) \<longrightarrow> K (ds ! k) \<le> K ((d # ds) ! j)"
        using least c here by (auto simp: nth_Cons split: nat.splits)
      moreover have "\<forall>j < Suc k. A ((d # ds) ! j) \<longrightarrow> K (ds ! k) < K ((d # ds) ! j)"
        using first c here by (auto simp: nth_Cons split: nat.splits)
      ultimately have "Suc k < length (d # ds) \<and> ?loop (d # ds) it best best_cost = it + Suc k
          \<and> A ((d # ds) ! Suc k) \<and> K ((d # ds) ! Suc k) < best_cost
          \<and> (\<forall>j < length (d # ds). A ((d # ds) ! j) \<longrightarrow> K ((d # ds) ! Suc k) \<le> K ((d # ds) ! j))
          \<and> (\<forall>j < Suc k. A ((d # ds) ! j) \<longrightarrow> K ((d # ds) ! Suc k) < K ((d # ds) ! j))"
        using k r a c step by simp
      then show ?thesis by blast
    qed
  qed
qed

lemma u32_max_le_iff: "((0xFFFFFFFF :: u32) \<le> x) = (x = 0xFFFFFFFF)"
proof
  assume "(0xFFFFFFFF :: u32) \<le> x"
  then have "4294967295 \<le> unat x" by (simp add: word_le_nat_alt)
  then have "unat x = unat (0xFFFFFFFF :: u32)"
    using unat_u32_bound [of x] by simp
  then show "x = 0xFFFFFFFF" by (simp only: word_unat_eq_iff)
qed simp

lemma u32_less_max_iff: "(x < (0xFFFFFFFF :: u32)) = (x \<noteq> 0xFFFFFFFF)"
  using u32_max_le_iff [of x] by (auto simp: not_le [symmetric])

text \<open>The same for \<open>closest\<close>, which starts the loop at \<open>p_first\<close> with \<open>best = p_last\<close>.\<close>

lemma closest_result:
  fixes p_source p_target :: frequency and p_divider_rule :: divider_rule
    and dividers :: "u32 list"
  defines "A \<equiv> \<lambda>d. is_applicable p_target p_divider_rule (freq_div p_source d)"
    and "K \<equiv> \<lambda>d. cost p_target (freq_div p_source d)"
    and "r \<equiv> closest p_source dividers p_target p_divider_rule"
  shows "(r = length dividers
          \<and> (\<forall>j < length dividers. A (dividers ! j) \<longrightarrow> K (dividers ! j) = 0xFFFFFFFF))
       \<or> (r < length dividers \<and> A (dividers ! r) \<and> K (dividers ! r) \<noteq> 0xFFFFFFFF
          \<and> (\<forall>j < length dividers. A (dividers ! j) \<longrightarrow> K (dividers ! r) \<le> K (dividers ! j))
          \<and> (\<forall>j < r. A (dividers ! j) \<longrightarrow> K (dividers ! r) < K (dividers ! j)))"
  using closest_loop_result
    [of p_source p_target p_divider_rule dividers 0 "length dividers" "0xFFFFFFFF"]
  unfolding r_def A_def K_def closest_def u32_max_le_iff u32_less_max_iff
  by auto

text \<open>
  The selection the spec describes holds as soon as one applicable candidate is at a
  distance other than \<open>2^32 - 1\<close> from the target.
\<close>

lemma closest_selects_first_minimum:
  assumes "j < length dividers"
    and "is_applicable p_target p_divider_rule (freq_div p_source (dividers ! j))"
    and "cost p_target (freq_div p_source (dividers ! j)) \<noteq> 0xFFFFFFFF"
  shows "closest p_source dividers p_target p_divider_rule < length dividers"
    and "is_applicable p_target p_divider_rule
           (freq_div p_source (dividers ! closest p_source dividers p_target p_divider_rule))"
    and "\<forall>i < length dividers.
           is_applicable p_target p_divider_rule (freq_div p_source (dividers ! i)) \<longrightarrow>
           cost p_target (freq_div p_source (dividers ! closest p_source dividers p_target p_divider_rule))
             \<le> cost p_target (freq_div p_source (dividers ! i))"
    and "\<forall>i < closest p_source dividers p_target p_divider_rule.
           is_applicable p_target p_divider_rule (freq_div p_source (dividers ! i)) \<longrightarrow>
           cost p_target (freq_div p_source (dividers ! closest p_source dividers p_target p_divider_rule))
             < cost p_target (freq_div p_source (dividers ! i))"
  using closest_result [of p_source dividers p_target p_divider_rule] assms by blast+

lemma closest_none_applicable:
  assumes "\<forall>j < length dividers.
             \<not> is_applicable p_target p_divider_rule (freq_div p_source (dividers ! j))"
  shows "closest p_source dividers p_target p_divider_rule = length dividers"
  using closest_result [of p_source dividers p_target p_divider_rule] assms by blast

lemma closest_empty: "closest p_source [] p_target p_divider_rule = 0"
  by (simp add: closest_def)

text \<open>
  What the search guarantees. For every source frequency, list of dividers, target and rule,
  \<open>closest\<close> returns a position of the list or \<open>p_last\<close> (the length). A candidate
  \<open>source / d\<close> is applicable under \<open>lower\<close> when it is at most the target, under
  \<open>higher\<close> when it is at least the target, and always under \<open>closest\<close>. If some
  applicable candidate is at a distance other than \<open>2^32 - 1\<close> from the target, the
  result is the position of an applicable candidate whose distance is no more than that
  of every applicable candidate and strictly less than that of every applicable candidate
  before it (the first seen wins ties). If the list is empty, or no candidate is
  applicable, or every applicable candidate is at distance exactly \<open>2^32 - 1\<close>, the
  result is \<open>p_last\<close>.
\<close>

lemma closest_selection:
  "closest p_source dividers p_target p_divider_rule \<le> length dividers
   \<and> ((\<exists>j < length dividers.
          is_applicable p_target p_divider_rule (freq_div p_source (dividers ! j))
        \<and> distance (value_hz (freq_div p_source (dividers ! j))) (value_hz p_target) \<noteq> 0xFFFFFFFF)
       \<longrightarrow>
         closest p_source dividers p_target p_divider_rule < length dividers
       \<and> is_applicable p_target p_divider_rule
             (freq_div p_source (dividers ! closest p_source dividers p_target p_divider_rule))
       \<and> (\<forall>i < length dividers.
             is_applicable p_target p_divider_rule (freq_div p_source (dividers ! i)) \<longrightarrow>
             distance
               (value_hz (freq_div p_source (dividers ! closest p_source dividers p_target p_divider_rule)))
               (value_hz p_target)
             \<le> distance (value_hz (freq_div p_source (dividers ! i))) (value_hz p_target))
       \<and> (\<forall>i < closest p_source dividers p_target p_divider_rule.
             is_applicable p_target p_divider_rule (freq_div p_source (dividers ! i)) \<longrightarrow>
             distance
               (value_hz (freq_div p_source (dividers ! closest p_source dividers p_target p_divider_rule)))
               (value_hz p_target)
             < distance (value_hz (freq_div p_source (dividers ! i))) (value_hz p_target)))
   \<and> ((\<forall>j < length dividers.
          is_applicable p_target p_divider_rule (freq_div p_source (dividers ! j)) \<longrightarrow>
          distance (value_hz (freq_div p_source (dividers ! j))) (value_hz p_target) = 0xFFFFFFFF)
       \<longrightarrow> closest p_source dividers p_target p_divider_rule = length dividers)
   \<and> is_applicable p_target Lower c = (value_hz c \<le> value_hz p_target)
   \<and> is_applicable p_target Higher c = (value_hz p_target \<le> value_hz c)
   \<and> is_applicable p_target Closest c"
proof -
  have range: "closest p_source dividers p_target p_divider_rule \<le> length dividers"
    using closest_result [of p_source dividers p_target p_divider_rule] by auto
  have select: "closest p_source dividers p_target p_divider_rule < length dividers
       \<and> is_applicable p_target p_divider_rule
             (freq_div p_source (dividers ! closest p_source dividers p_target p_divider_rule))
       \<and> (\<forall>i < length dividers.
             is_applicable p_target p_divider_rule (freq_div p_source (dividers ! i)) \<longrightarrow>
             cost p_target (freq_div p_source (dividers ! closest p_source dividers p_target p_divider_rule))
             \<le> cost p_target (freq_div p_source (dividers ! i)))
       \<and> (\<forall>i < closest p_source dividers p_target p_divider_rule.
             is_applicable p_target p_divider_rule (freq_div p_source (dividers ! i)) \<longrightarrow>
             cost p_target (freq_div p_source (dividers ! closest p_source dividers p_target p_divider_rule))
             < cost p_target (freq_div p_source (dividers ! i)))"
    if "\<exists>j < length dividers.
          is_applicable p_target p_divider_rule (freq_div p_source (dividers ! j))
        \<and> cost p_target (freq_div p_source (dividers ! j)) \<noteq> 0xFFFFFFFF"
  proof -
    from that obtain j where "j < length dividers"
      and "is_applicable p_target p_divider_rule (freq_div p_source (dividers ! j))"
      and "cost p_target (freq_div p_source (dividers ! j)) \<noteq> 0xFFFFFFFF"
      by blast
    then show ?thesis
      using closest_selects_first_minimum [of j dividers p_target p_divider_rule p_source]
      by blast
  qed
  have none: "closest p_source dividers p_target p_divider_rule = length dividers"
    if "\<forall>j < length dividers.
          is_applicable p_target p_divider_rule (freq_div p_source (dividers ! j)) \<longrightarrow>
          cost p_target (freq_div p_source (dividers ! j)) = 0xFFFFFFFF"
    using closest_result [of p_source dividers p_target p_divider_rule] that by blast
  have rules: "is_applicable p_target Lower c = (value_hz c \<le> value_hz p_target)"
    "is_applicable p_target Higher c = (value_hz p_target \<le> value_hz c)"
    "is_applicable p_target Closest c"
    by simp_all
  show ?thesis
    using range select none rules unfolding cost_def by blast
qed

text \<open>
  The dividers 1, 2, 4, 8, 16 of a 1 MHz source against a target of 70 kHz: under
  \<open>higher\<close> the result is position 3 (divider 8, 125 kHz), under \<open>closest\<close> and
  \<open>lower\<close> position 4 (divider 16, 62.5 kHz).
\<close>

lemma closest_selection_examples:
  "is_applicable \<lparr>value_hz = 70000\<rparr> Higher (freq_div \<lparr>value_hz = 1000000\<rparr> ([1, 2, 4, 8, 16] ! 0))
   \<and> distance (value_hz (freq_div \<lparr>value_hz = 1000000\<rparr> ([1, 2, 4, 8, 16] ! 0)))
         (value_hz \<lparr>value_hz = 70000\<rparr>) \<noteq> 0xFFFFFFFF
   \<and> closest \<lparr>value_hz = 1000000\<rparr> [1, 2, 4, 8, 16] \<lparr>value_hz = 70000\<rparr> Higher = 3
   \<and> is_applicable \<lparr>value_hz = 70000\<rparr> Higher
         (freq_div \<lparr>value_hz = 1000000\<rparr>
            ([1, 2, 4, 8, 16] ! closest \<lparr>value_hz = 1000000\<rparr> [1, 2, 4, 8, 16] \<lparr>value_hz = 70000\<rparr> Higher))
   \<and> closest \<lparr>value_hz = 1000000\<rparr> [1, 2, 4, 8, 16] \<lparr>value_hz = 70000\<rparr> Closest = 4
   \<and> closest \<lparr>value_hz = 1000000\<rparr> [1, 2, 4, 8, 16] \<lparr>value_hz = 70000\<rparr> Lower = 4"
proof -
  have first: "freq_div \<lparr>value_hz = 1000000\<rparr> 1 = \<lparr>value_hz = 1000000\<rparr>"
    by (simp add: freq_div_def rounding_division_u32_def rounding_division_int_def)
  have a: "is_applicable \<lparr>value_hz = 70000\<rparr> Higher
      (freq_div \<lparr>value_hz = 1000000\<rparr> ([1, 2, 4, 8, 16] ! 0))"
    by (simp add: first)
  have d: "distance (value_hz (freq_div \<lparr>value_hz = 1000000\<rparr> ([1, 2, 4, 8, 16] ! 0)))
      (value_hz \<lparr>value_hz = 70000\<rparr>) \<noteq> 0xFFFFFFFF"
    by (simp add: first distance_def)
  have "\<exists>j < length [1, 2, 4, 8, 16 :: u32].
      is_applicable \<lparr>value_hz = 70000\<rparr> Higher (freq_div \<lparr>value_hz = 1000000\<rparr> ([1, 2, 4, 8, 16] ! j))
    \<and> distance (value_hz (freq_div \<lparr>value_hz = 1000000\<rparr> ([1, 2, 4, 8, 16] ! j)))
        (value_hz \<lparr>value_hz = 70000\<rparr>) \<noteq> 0xFFFFFFFF"
    using a d by (intro exI [of _ 0]) simp
  then have sel: "is_applicable \<lparr>value_hz = 70000\<rparr> Higher
      (freq_div \<lparr>value_hz = 1000000\<rparr>
         ([1, 2, 4, 8, 16] ! closest \<lparr>value_hz = 1000000\<rparr> [1, 2, 4, 8, 16] \<lparr>value_hz = 70000\<rparr> Higher))"
    using closest_selection
      [of "\<lparr>value_hz = 1000000\<rparr>" "[1, 2, 4, 8, 16]" "\<lparr>value_hz = 70000\<rparr>" Higher]
    by blast
  have h: "closest \<lparr>value_hz = 1000000\<rparr> [1, 2, 4, 8, 16] \<lparr>value_hz = 70000\<rparr> Higher = 3"
    by code_simp
  have c: "closest \<lparr>value_hz = 1000000\<rparr> [1, 2, 4, 8, 16] \<lparr>value_hz = 70000\<rparr> Closest = 4"
    by code_simp
  have l: "closest \<lparr>value_hz = 1000000\<rparr> [1, 2, 4, 8, 16] \<lparr>value_hz = 70000\<rparr> Lower = 4"
    by code_simp
  show ?thesis
    using a d sel h c l by blast
qed

text \<open>
  C1. The claim: \<open>closest\<close> returns the position of the first applicable candidate at the
  smallest distance from the target whenever the list holds an applicable candidate, and
  \<open>p_last\<close> only when the list is empty or no candidate is applicable; the doc comment of
  \<open>closest\<close> says the same (the best divider if a solution is found, \<open>p_last\<close> if none
  is). The code departs from it where the nearest applicable candidate is at distance
  \<open>2^32 - 1\<close>, the value the running best cost starts at, since the comparison is strict.
  A 0 Hz source divided by 1 is 0 Hz; against a target of \<open>2^32 - 1\<close> Hz under the rule
  \<open>closest\<close> that one candidate is applicable and is the nearest there is, yet
  \<open>closest\<close> returns \<open>p_last\<close>.
\<close>

theorem closest_misses_eligible_candidate:
  "is_applicable \<lparr>value_hz = 0xFFFFFFFF\<rparr> Closest (freq_div \<lparr>value_hz = 0\<rparr> 1)
   \<and> distance (value_hz (freq_div \<lparr>value_hz = 0\<rparr> 1)) (value_hz \<lparr>value_hz = 0xFFFFFFFF\<rparr>)
       = 0xFFFFFFFF
   \<and> closest \<lparr>value_hz = 0\<rparr> [1] \<lparr>value_hz = 0xFFFFFFFF\<rparr> Closest = length [1 :: u32]"
  by (simp add: closest_def freq_div_def cost_def distance_def rounding_division_u32_def
      rounding_division_int_def)

text \<open>
  C9. Because the running best cost starts at the largest unsigned 32-bit value and a
  candidate is taken only at a strictly smaller cost, \<open>closest\<close> never selects a candidate
  whose distance to the target is \<open>2^32 - 1\<close>; and if every applicable candidate is at
  exactly that distance, \<open>closest\<close> returns \<open>p_last\<close>, applicable candidates or not.
\<close>

theorem closest_skips_maximal_distance:
  "(closest p_source dividers p_target p_divider_rule < length dividers \<longrightarrow>
      distance
        (value_hz (freq_div p_source (dividers ! closest p_source dividers p_target p_divider_rule)))
        (value_hz p_target) \<noteq> 0xFFFFFFFF)
   \<and> ((\<forall>j < length dividers.
          is_applicable p_target p_divider_rule (freq_div p_source (dividers ! j)) \<longrightarrow>
          distance (value_hz (freq_div p_source (dividers ! j))) (value_hz p_target) = 0xFFFFFFFF)
        \<longrightarrow> closest p_source dividers p_target p_divider_rule = length dividers)"
  using closest_result [of p_source dividers p_target p_divider_rule]
  unfolding cost_def by auto

text \<open>
  A 1 Hz source divided by 3 or by 7 rounds to 0 Hz. Against a target of
  \<open>2^32 - 1\<close> Hz under the rule \<open>lower\<close> both candidates are applicable and both are at
  distance \<open>2^32 - 1\<close>: the result is \<open>p_last\<close>.
\<close>

theorem closest_skips_maximal_distance_witness:
  "is_applicable \<lparr>value_hz = 0xFFFFFFFF\<rparr> Lower (freq_div \<lparr>value_hz = 1\<rparr> 3)
   \<and> is_applicable \<lparr>value_hz = 0xFFFFFFFF\<rparr> Lower (freq_div \<lparr>value_hz = 1\<rparr> 7)
   \<and> distance (value_hz (freq_div \<lparr>value_hz = 1\<rparr> 3)) 0xFFFFFFFF = 0xFFFFFFFF
   \<and> distance (value_hz (freq_div \<lparr>value_hz = 1\<rparr> 7)) 0xFFFFFFFF = 0xFFFFFFFF
   \<and> closest \<lparr>value_hz = 1\<rparr> [3, 7] \<lparr>value_hz = 0xFFFFFFFF\<rparr> Lower = length [3, 7 :: u32]"
proof -
  have c3: "freq_div \<lparr>value_hz = 1\<rparr> 3 = \<lparr>value_hz = 0\<rparr>"
    and c7: "freq_div \<lparr>value_hz = 1\<rparr> 7 = \<lparr>value_hz = 0\<rparr>"
    by (simp_all add: freq_div_def rounding_division_u32_def rounding_division_int_def)
  have d: "distance 0 0xFFFFFFFF = (0xFFFFFFFF :: u32)"
    by (simp add: distance_def)
  have "\<forall>j < length [3, 7 :: u32].
      is_applicable \<lparr>value_hz = 0xFFFFFFFF\<rparr> Lower (freq_div \<lparr>value_hz = 1\<rparr> ([3, 7] ! j)) \<longrightarrow>
      distance (value_hz (freq_div \<lparr>value_hz = 1\<rparr> ([3, 7] ! j)))
        (value_hz \<lparr>value_hz = 0xFFFFFFFF\<rparr>) = 0xFFFFFFFF"
    by (auto simp: less_Suc_eq c3 c7 d)
  then have "closest \<lparr>value_hz = 1\<rparr> [3, 7] \<lparr>value_hz = 0xFFFFFFFF\<rparr> Lower = length [3, 7 :: u32]"
    using closest_skips_maximal_distance
      [of "\<lparr>value_hz = 1\<rparr>" "[3, 7]" "\<lparr>value_hz = 0xFFFFFFFF\<rparr>" Lower]
    by blast
  then show ?thesis
    by (simp add: c3 c7 d)
qed

end
